theory Spec2Isabelle
  imports Complex_Main
begin

section \<open>The relay server of \<^verbatim>\<open>relay_server.js\<close>\<close>

text \<open>
  The class \<^verbatim>\<open>RelayServer\<close> keeps two maps from pairing token to WebSocket, one per
  client type, and reacts to four socket events: \<^verbatim>\<open>connection\<close>, \<^verbatim>\<open>message\<close>,
  \<^verbatim>\<open>close\<close> and \<^verbatim>\<open>error\<close>. Each handler is embedded as a function from the
  server state to the server state. What the handlers do to sockets (\<^verbatim>\<open>send\<close>,
  \<^verbatim>\<open>close\<close>) is appended to a trace, oldest call first.
\<close>

subsection \<open>Data\<close>

text \<open>A WebSocket object is known by its identity.\<close>

type_synonym ws = nat

text \<open>The four values of \<^verbatim>\<open>readyState\<close>.\<close>

datatype ready_state = CONNECTING | OPEN | CLOSING | CLOSED

text \<open>
  The values \<^verbatim>\<open>JSON.parse\<close> returns. An object is the list of its own properties,
  looked up by key.
\<close>

datatype json =
    JNull
  | JBool bool
  | JNumber real
  | JString string
  | JArray "json list"
  | JObject "(string \<times> json) list"

text \<open>
  A JavaScript string is held as the bytes of its UTF-8 encoding, which are the
  payload of the text frame that \<^verbatim>\<open>send\<close> makes of it. What is handed to
  \<^verbatim>\<open>send\<close> is the text of the message (\<^verbatim>\<open>send(message)\<close>), or the
  serialisation of a value (\<^verbatim>\<open>send(JSON.stringify(v))\<close>).
\<close>

datatype data = Raw string | JSON_stringify json

text \<open>The calls the server makes on sockets.\<close>

datatype effect = Send ws data | Close ws nat string

text \<open>
  The state: the two maps of the constructor, the \<^verbatim>\<open>readyState\<close> of every socket,
  the variables \<^verbatim>\<open>token\<close> and \<^verbatim>\<open>clientType\<close> captured by the event handlers that
  the \<^verbatim>\<open>connection\<close> callback installs on a socket, and the trace.
\<close>

record relay =
  pcConnections :: "string \<rightharpoonup> ws"
  phoneConnections :: "string \<rightharpoonup> ws"
  readyState :: "ws \<Rightarrow> ready_state"
  handlers :: "ws \<rightharpoonup> string \<times> string"
  trace :: "effect list"

definition RelayServer :: relay where
  "RelayServer =
     \<lparr>pcConnections = Map.empty, phoneConnections = Map.empty,
      readyState = (\<lambda>_. CONNECTING), handlers = Map.empty, trace = []\<rparr>"

subsection \<open>Socket primitives\<close>

text \<open>
  \<^verbatim>\<open>ws.send(d)\<close> is recorded as a call. The sockets the server sends to have all
  been handed over open, and \<^verbatim>\<open>send\<close> throws only on a socket that is still
  connecting, so no call of the server throws.
\<close>

definition ws_send :: "ws \<Rightarrow> data \<Rightarrow> relay \<Rightarrow> relay" where
  "ws_send w d st = st\<lparr>trace := trace st @ [Send w d]\<rparr>"

text \<open>
  \<^verbatim>\<open>ws.close(code, reason)\<close> is recorded as a call and starts the closing
  handshake: a socket that is not yet closed is closing afterwards.
\<close>

definition ws_close :: "ws \<Rightarrow> nat \<Rightarrow> string \<Rightarrow> relay \<Rightarrow> relay" where
  "ws_close w code reason st =
     st\<lparr>readyState := (readyState st)
            (w := (if readyState st w = CLOSED then CLOSED else CLOSING)),
        trace := trace st @ [Close w code reason]\<rparr>"

text \<open>The test \<^verbatim>\<open>x && x.readyState === WebSocket.OPEN\<close> on the result of \<^verbatim>\<open>Map.get\<close>.\<close>

definition is_open :: "relay \<Rightarrow> ws option \<Rightarrow> bool" where
  "is_open st x = (case x of None \<Rightarrow> False | Some w \<Rightarrow> readyState st w = OPEN)"

subsection \<open>Registration\<close>

definition handlePCConnection :: "ws \<Rightarrow> string \<Rightarrow> relay \<Rightarrow> relay" where
  "handlePCConnection w token st =
     (let st1 = (case pcConnections st token of
                   Some oldPC \<Rightarrow> ws_close oldPC 1000 ''New PC connection'' st
                 | None \<Rightarrow> st);
          st2 = st1\<lparr>pcConnections := (pcConnections st1)(token \<mapsto> w)\<rparr>;
          phoneWS = phoneConnections st2 token;
          st3 = (case phoneWS of
                   Some p \<Rightarrow>
                     if readyState st2 p = OPEN
                     then ws_send p (JSON_stringify (JObject
                            [(''type'', JString ''relay_status''),
                             (''pc_connected'', JBool True)])) st2
                     else st2
                 | None \<Rightarrow> st2)
      in ws_send w (JSON_stringify (JObject
           [(''type'', JString ''relay_status''),
            (''status'', JString ''connected''),
            (''role'', JString ''pc'')])) st3)"

definition handlePhoneConnection :: "ws \<Rightarrow> string \<Rightarrow> relay \<Rightarrow> relay" where
  "handlePhoneConnection w token st =
     (let st1 = (case phoneConnections st token of
                   Some oldPhone \<Rightarrow> ws_close oldPhone 1000 ''New phone connection'' st
                 | None \<Rightarrow> st);
          st2 = st1\<lparr>phoneConnections := (phoneConnections st1)(token \<mapsto> w)\<rparr>;
          pcWS = pcConnections st2 token;
          pcConnected = is_open st2 pcWS;
          st3 = ws_send w (JSON_stringify (JObject
                  [(''type'', JString ''relay_status''),
                   (''pc_connected'', JBool pcConnected),
                   (''status'', JString ''connected''),
                   (''role'', JString ''phone'')])) st2
      in (case pcWS of
            Some p \<Rightarrow>
              if pcConnected
              then ws_send p (JSON_stringify (JObject
                     [(''type'', JString ''relay_status''),
                      (''phone_connected'', JBool True)])) st3
              else st3
          | None \<Rightarrow> st3))"

subsection \<open>Routing\<close>

text \<open>
  The property read \<^verbatim>\<open>data.type\<close>: it throws a TypeError on \<^verbatim>\<open>null\<close> (the result
  \<open>None\<close>), is the own property of an object when there is one, and is
  \<^verbatim>\<open>undefined\<close> (the result \<open>Some None\<close>) otherwise.
\<close>

fun get_type :: "json \<Rightarrow> json option option" where
  "get_type JNull = None"
| "get_type (JObject kvs) = Some (map_of kvs ''type'')"
| "get_type _ = Some None"

definition handleAuthMessage :: "string \<Rightarrow> string \<Rightarrow> json \<Rightarrow> relay \<Rightarrow> relay" where
  "handleAuthMessage token clientType d st =
     (let targetWS = (if clientType = ''phone'' then pcConnections st token
                      else phoneConnections st token)
      in (case targetWS of
            Some t \<Rightarrow> if readyState st t = OPEN then ws_send t (JSON_stringify d) st else st
          | None \<Rightarrow> st))"

text \<open>The body of the \<^verbatim>\<open>catch\<close> block of \<^verbatim>\<open>handleMessage\<close>.\<close>

definition invalid_message :: "ws \<Rightarrow> relay \<Rightarrow> relay" where
  "invalid_message w st =
     ws_send w (JSON_stringify (JObject
       [(''type'', JString ''error''),
        (''error'', JString ''Invalid message format'')])) st"

text \<open>
  \<^verbatim>\<open>JSON.parse\<close> is a parameter: it returns \<open>None\<close> where the built-in throws a
  SyntaxError.
\<close>

definition handleMessage ::
  "(string \<Rightarrow> json option) \<Rightarrow> ws \<Rightarrow> string \<Rightarrow> string \<Rightarrow> string \<Rightarrow> relay \<Rightarrow> relay" where
  "handleMessage JSON_parse w token clientType message st =
     (case JSON_parse message of
        None \<Rightarrow> invalid_message w st
      | Some d \<Rightarrow>
          (case get_type d of
             None \<Rightarrow> invalid_message w st
           | Some ty \<Rightarrow>
               if ty = Some (JString ''auth'') then handleAuthMessage token clientType d st
               else if clientType = ''phone'' then
                 (let pcWS = pcConnections st token
                  in if is_open st pcWS
                     then (case pcWS of Some p \<Rightarrow> ws_send p (Raw message) st | None \<Rightarrow> st)
                     else ws_send w (JSON_stringify (JObject
                            [(''type'', JString ''error''),
                             (''error'', JString ''PC not connected''),
                             (''pc_connected'', JBool False)])) st)
               else if clientType = ''pc'' then
                 (let phoneWS = phoneConnections st token
                  in if is_open st phoneWS
                     then (case phoneWS of Some p \<Rightarrow> ws_send p (Raw message) st | None \<Rightarrow> st)
                     else st)
               else st))"

subsection \<open>Teardown\<close>

definition handleDisconnection :: "string \<Rightarrow> string \<Rightarrow> relay \<Rightarrow> relay" where
  "handleDisconnection token clientType st =
     (if clientType = ''pc'' then
        (let st1 = st\<lparr>pcConnections := (pcConnections st)(token := None)\<rparr>;
             phoneWS = phoneConnections st1 token
         in (case phoneWS of
               Some p \<Rightarrow>
                 if readyState st1 p = OPEN
                 then ws_send p (JSON_stringify (JObject
                        [(''type'', JString ''relay_status''),
                         (''pc_connected'', JBool False)])) st1
                 else st1
             | None \<Rightarrow> st1))
      else
        (let st1 = st\<lparr>phoneConnections := (phoneConnections st)(token := None)\<rparr>;
             pcWS = pcConnections st1 token
         in (case pcWS of
               Some p \<Rightarrow>
                 if readyState st1 p = OPEN
                 then ws_send p (JSON_stringify (JObject
                        [(''type'', JString ''relay_status''),
                         (''phone_connected'', JBool False)])) st1
                 else st1
             | None \<Rightarrow> st1)))"

subsection \<open>The connection callback\<close>

text \<open>
  The two query parameters are \<open>None\<close> when absent. \<^verbatim>\<open>!token\<close> holds of an absent
  and of an empty parameter, and so does \<^verbatim>\<open>!clientType\<close>. After a valid handshake the
  callback installs the \<^verbatim>\<open>message\<close>, \<^verbatim>\<open>close\<close> and \<^verbatim>\<open>error\<close> handlers, which
  capture \<^verbatim>\<open>token\<close> and \<^verbatim>\<open>clientType\<close>.
\<close>

definition on_connection :: "ws \<Rightarrow> string option \<Rightarrow> string option \<Rightarrow> relay \<Rightarrow> relay" where
  "on_connection w token clientType st =
     (case token of
        None \<Rightarrow> ws_close w 1008 ''Token required'' st
      | Some t \<Rightarrow>
          if t = [] then ws_close w 1008 ''Token required'' st
          else
            (case clientType of
               None \<Rightarrow> ws_close w 1008 ''Client type must be \"pc\" or \"phone\"'' st
             | Some c \<Rightarrow>
                 if c = [] \<or> c \<notin> set [''pc'', ''phone'']
                 then ws_close w 1008 ''Client type must be \"pc\" or \"phone\"'' st
                 else
                   (let st1 = (if c = ''pc'' then handlePCConnection w t st
                               else handlePhoneConnection w t st)
                    in st1\<lparr>handlers := (handlers st1)(w \<mapsto> (t, c))\<rparr>)))"

subsection \<open>Decoding of received data\<close>

text \<open>
  The \<^verbatim>\<open>message\<close> listener receives the payload of a frame as a Buffer of bytes
  and passes \<^verbatim>\<open>data.toString()\<close> on, the UTF-8 decoding of the bytes. The
  decoder reads a lead byte, then the continuation bytes it announces, each
  within the bounds \<open>lower\<close> and \<open>upper\<close>; a sequence that is complete is kept,
  and a lead byte that cannot start a sequence, a sequence cut short by a byte
  out of bounds (which is then read again as a lead byte) or by the end of the
  data, is replaced by U+FFFD, whose encoding is \<open>EF BF BD\<close>.
\<close>

definition replacement :: string where
  "replacement = [CHR 0xEF, CHR 0xBF, CHR 0xBD]"

text \<open>
  \<open>decode n lower upper seen bs\<close>: \<open>n\<close> continuation bytes are still needed,
  \<open>seen\<close> are the bytes of the sequence read so far, \<open>bs\<close> is the rest of the
  data.
\<close>

fun decode :: "nat \<Rightarrow> nat \<Rightarrow> nat \<Rightarrow> string \<Rightarrow> string \<Rightarrow> string" where
  "decode 0 lower upper seen [] = []"
| "decode (Suc n) lower upper seen [] = replacement"
| "decode 0 lower upper seen (b # bs) =
     (if (of_char b :: nat) \<le> 0x7F then b # decode 0 0x80 0xBF [] bs
      else if 0xC2 \<le> (of_char b :: nat) \<and> (of_char b :: nat) \<le> 0xDF
      then decode (Suc 0) 0x80 0xBF [b] bs
      else if 0xE0 \<le> (of_char b :: nat) \<and> (of_char b :: nat) \<le> 0xEF
      then decode (Suc (Suc 0))
             (if (of_char b :: nat) = 0xE0 then 0xA0 else 0x80)
             (if (of_char b :: nat) = 0xED then 0x9F else 0xBF) [b] bs
      else if 0xF0 \<le> (of_char b :: nat) \<and> (of_char b :: nat) \<le> 0xF4
      then decode (Suc (Suc (Suc 0)))
             (if (of_char b :: nat) = 0xF0 then 0x90 else 0x80)
             (if (of_char b :: nat) = 0xF4 then 0x8F else 0xBF) [b] bs
      else replacement @ decode 0 0x80 0xBF [] bs)"
| "decode (Suc n) lower upper seen (b # bs) =
     (if lower \<le> (of_char b :: nat) \<and> (of_char b :: nat) \<le> upper
      then (if n = 0 then seen @ [b] @ decode 0 0x80 0xBF [] bs
            else decode n 0x80 0xBF (seen @ [b]) bs)
      else replacement @ decode 0 0x80 0xBF [] (b # bs))"

definition toString :: "string \<Rightarrow> string" where
  "toString buf = decode 0 0x80 0xBF [] buf"

text \<open>
  The well-formed byte sequences of UTF-8 (RFC 3629), which are the payloads
  a text frame can have.
\<close>

definition in_range :: "nat \<Rightarrow> nat \<Rightarrow> char \<Rightarrow> bool" where
  "in_range lower upper b \<longleftrightarrow> lower \<le> (of_char b :: nat) \<and> (of_char b :: nat) \<le> upper"

fun valid_utf8 :: "string \<Rightarrow> bool" where
  "valid_utf8 [] = True"
| "valid_utf8 (b # bs) =
     (if in_range 0x00 0x7F b then valid_utf8 bs
      else if in_range 0xC2 0xDF b then
        (case bs of
           c1 # r \<Rightarrow> in_range 0x80 0xBF c1 \<and> valid_utf8 r
         | _ \<Rightarrow> False)
      else if in_range 0xE0 0xEF b then
        (case bs of
           c1 # c2 # r \<Rightarrow>
             in_range (if (of_char b :: nat) = 0xE0 then 0xA0 else 0x80)
                      (if (of_char b :: nat) = 0xED then 0x9F else 0xBF) c1
             \<and> in_range 0x80 0xBF c2 \<and> valid_utf8 r
         | _ \<Rightarrow> False)
      else if in_range 0xF0 0xF4 b then
        (case bs of
           c1 # c2 # c3 # r \<Rightarrow>
             in_range (if (of_char b :: nat) = 0xF0 then 0x90 else 0x80)
                      (if (of_char b :: nat) = 0xF4 then 0x8F else 0xBF) c1
             \<and> in_range 0x80 0xBF c2 \<and> in_range 0x80 0xBF c3 \<and> valid_utf8 r
         | _ \<Rightarrow> False)
      else False)"

subsection \<open>Events\<close>

text \<open>
  The server runs one handler at a time. A \<^verbatim>\<open>connection\<close> event hands over a
  socket that has not been seen before, in state \<^verbatim>\<open>OPEN\<close>. A \<^verbatim>\<open>message\<close>,
  \<^verbatim>\<open>close\<close> or \<^verbatim>\<open>error\<close> event runs the handler installed on its socket, with the
  captured \<^verbatim>\<open>token\<close> and \<^verbatim>\<open>clientType\<close>. A \<^verbatim>\<open>message\<close> event carries the
  bytes of the frame, which the listener decodes. A socket is \<^verbatim>\<open>CLOSED\<close> when
  its \<^verbatim>\<open>close\<close> event is emitted, and it has been set to close when its
  \<^verbatim>\<open>error\<close> event is emitted. Before that, an open socket becomes \<^verbatim>\<open>CLOSING\<close>
  when its client starts the closing handshake (\<open>Closing\<close>), which runs no handler
  of the server.
\<close>

datatype event =
    Connection ws "string option" "string option"
  | Message ws string
  | Closing ws
  | CloseEvent ws
  | ErrorEvent ws

fun step :: "(string \<Rightarrow> json option) \<Rightarrow> event \<Rightarrow> relay \<Rightarrow> relay" where
  "step JSON_parse (Connection w token clientType) st =
     (if readyState st w = CONNECTING
      then on_connection w token clientType (st\<lparr>readyState := (readyState st)(w := OPEN)\<rparr>)
      else st)"
| "step JSON_parse (Message w buf) st =
     (case handlers st w of
        Some (token, clientType) \<Rightarrow>
          handleMessage JSON_parse w token clientType (toString buf) st
      | None \<Rightarrow> st)"
| "step JSON_parse (Closing w) st =
     (if readyState st w = OPEN then st\<lparr>readyState := (readyState st)(w := CLOSING)\<rparr>
      else st)"
| "step JSON_parse (CloseEvent w) st =
     (let st1 = st\<lparr>readyState := (readyState st)(w := CLOSED)\<rparr>
      in (case handlers st w of
            Some (token, clientType) \<Rightarrow> handleDisconnection token clientType st1
          | None \<Rightarrow> st1))"
| "step JSON_parse (ErrorEvent w) st =
     (let st1 = st\<lparr>readyState := (readyState st)
                   (w := (if readyState st w = CLOSED then CLOSED else CLOSING))\<rparr>
      in (case handlers st w of
            Some (token, clientType) \<Rightarrow> handleDisconnection token clientType st1
          | None \<Rightarrow> st1))"

fun run :: "(string \<Rightarrow> json option) \<Rightarrow> event list \<Rightarrow> relay \<Rightarrow> relay" where
  "run JSON_parse [] st = st"
| "run JSON_parse (e # es) st = run JSON_parse es (step JSON_parse e st)"

text \<open>
  A message is relayed as it is when it parses, the read of \<^verbatim>\<open>data.type\<close> does not
  throw, and the type is not \<^verbatim>\<open>'auth'\<close>; it is an authentication message when the
  type is \<^verbatim>\<open>'auth'\<close>.
\<close>

definition non_auth :: "(string \<Rightarrow> json option) \<Rightarrow> string \<Rightarrow> bool" where
  "non_auth JSON_parse message =
     (case JSON_parse message of
        None \<Rightarrow> False
      | Some d \<Rightarrow>
          (case get_type d of None \<Rightarrow> False | Some ty \<Rightarrow> ty \<noteq> Some (JString ''auth'')))"

definition is_auth :: "(string \<Rightarrow> json option) \<Rightarrow> string \<Rightarrow> bool" where
  "is_auth JSON_parse message =
     (case JSON_parse message of
        None \<Rightarrow> False
      | Some d \<Rightarrow> get_type d = Some (Some (JString ''auth'')))"

text \<open>The slot a message of a client of type \<open>clientType\<close> is routed to.\<close>

definition peer :: "relay \<Rightarrow> string \<Rightarrow> string \<Rightarrow> ws option" where
  "peer st clientType token =
     (if clientType = ''phone'' then pcConnections st token else phoneConnections st token)"

text \<open>
  A parser for the examples: it knows three texts, an authentication message, a
  click command and a result, and rejects every other text.
\<close>

definition parse_example :: "string \<Rightarrow> json option" where
  "parse_example s =
     (if s = ''{\"type\":\"auth\",\"token\":\"abc\"}''
      then Some (JObject [(''type'', JString ''auth''), (''token'', JString ''abc'')])
      else if s = ''{\"type\":\"click\",\"button\":\"left\"}''
      then Some (JObject [(''type'', JString ''click''), (''button'', JString ''left'')])
      else if s = ''{\"type\":\"result\",\"ok\":true}''
      then Some (JObject [(''type'', JString ''result''), (''ok'', JBool True)])
      else None)"

text \<open>
  A second parser for the examples: it knows one text, the JSON string whose
  only character is U+FFFD, and rejects every other text.
\<close>

definition parse_replacement :: "string \<Rightarrow> json option" where
  "parse_replacement s =
     (if s = [CHR 0x22, CHR 0xEF, CHR 0xBF, CHR 0xBD, CHR 0x22]
      then Some (JString [CHR 0xEF, CHR 0xBF, CHR 0xBD])
      else None)"

subsection \<open>Auxiliary notions\<close>

text \<open>The tokens that are keys of one of the two maps.\<close>

definition tokens :: "relay \<Rightarrow> string set" where
  "tokens st = dom (pcConnections st) \<union> dom (phoneConnections st)"

text \<open>The sockets registered under a token, in either map.\<close>

definition registered :: "relay \<Rightarrow> string \<Rightarrow> ws set" where
  "registered st token =
     set_option (pcConnections st token) \<union> set_option (phoneConnections st token)"

text \<open>The socket a call is made on.\<close>

fun target :: "effect \<Rightarrow> ws" where
  "target (Send w d) = w"
| "target (Close w code reason) = w"

text \<open>
  The token an event belongs to: the query parameter of a \<^verbatim>\<open>connection\<close>, and
  for the other events the token captured by the handlers of the socket.
\<close>

fun event_token :: "relay \<Rightarrow> event \<Rightarrow> string option" where
  "event_token st (Connection w token clientType) = token"
| "event_token st (Message w message) = map_option fst (handlers st w)"
| "event_token st (Closing w) = map_option fst (handlers st w)"
| "event_token st (CloseEvent w) = map_option fst (handlers st w)"
| "event_token st (ErrorEvent w) = map_option fst (handlers st w)"

text \<open>
  What holds of every state the server reaches: a socket registered under a
  token has handlers that captured this token, and a socket with handlers has
  left the state \<^verbatim>\<open>CONNECTING\<close>.
\<close>

definition consistent :: "relay \<Rightarrow> bool" where
  "consistent st \<longleftrightarrow>
     (\<forall>t w. pcConnections st t = Some w \<longrightarrow> (\<exists>c. handlers st w = Some (t, c)))
   \<and> (\<forall>t w. phoneConnections st t = Some w \<longrightarrow> (\<exists>c. handlers st w = Some (t, c)))
   \<and> (\<forall>w. handlers st w \<noteq> None \<longrightarrow> readyState st w \<noteq> CONNECTING)"

section \<open>Properties\<close>

subsection \<open>Handshake\<close>

text \<open>
  C8. A connection whose \<open>token\<close> parameter is absent or empty, or whose
  \<open>client\<close> parameter is absent or neither \<open>pc\<close> nor \<open>phone\<close>, is closed at once
  with code 1008: the only call the server makes is that \<open>close\<close>, nothing is
  sent, neither map changes, no handler is installed, and the socket is no
  longer open.
\<close>

theorem malformed_handshake_closed:
  assumes "token = None \<or> token = Some [] \<or> clientType \<notin> {Some ''pc'', Some ''phone''}"
  shows "\<exists>reason.
           trace (on_connection w token clientType st) = trace st @ [Close w 1008 reason]
         \<and> pcConnections (on_connection w token clientType st) = pcConnections st
         \<and> phoneConnections (on_connection w token clientType st) = phoneConnections st
         \<and> handlers (on_connection w token clientType st) = handlers st
         \<and> readyState (on_connection w token clientType st) w \<noteq> OPEN"
  using assms
  by (auto simp: on_connection_def ws_close_def split: option.splits)

theorem malformed_handshake_closed_witness:
  "(\<exists>reason. trace (on_connection 1 (Some ''abc'') (Some ''tablet'') RelayServer)
              = [Close 1 1008 reason])
   \<and> pcConnections (on_connection 1 (Some ''abc'') (Some ''tablet'') RelayServer) = Map.empty
   \<and> phoneConnections (on_connection 1 (Some ''abc'') (Some ''tablet'') RelayServer) = Map.empty"
  using malformed_handshake_closed [of "Some ''abc''" "Some ''tablet''" 1 RelayServer]
  by (simp add: RelayServer_def)

subsection \<open>Registration\<close>

text \<open>The calls of a registration, in order.\<close>

lemma handlePCConnection_trace:
  "trace (handlePCConnection w token st) =
     trace st
     @ (case pcConnections st token of
          Some oldPC \<Rightarrow> [Close oldPC 1000 ''New PC connection'']
        | None \<Rightarrow> [])
     @ (case phoneConnections st token of
          Some p \<Rightarrow>
            if readyState (handlePCConnection w token st) p = OPEN
            then [Send p (JSON_stringify (JObject
                   [(''type'', JString ''relay_status''),
                    (''pc_connected'', JBool True)]))]
            else []
        | None \<Rightarrow> [])
     @ [Send w (JSON_stringify (JObject
          [(''type'', JString ''relay_status''),
           (''status'', JString ''connected''),
           (''role'', JString ''pc'')]))]"
  by (simp add: handlePCConnection_def ws_send_def ws_close_def Let_def split: option.splits)

lemma handlePhoneConnection_trace:
  "trace (handlePhoneConnection w token st) =
     trace st
     @ (case phoneConnections st token of
          Some oldPhone \<Rightarrow> [Close oldPhone 1000 ''New phone connection'']
        | None \<Rightarrow> [])
     @ [Send w (JSON_stringify (JObject
          [(''type'', JString ''relay_status''),
           (''pc_connected'',
              JBool (is_open (handlePhoneConnection w token st) (pcConnections st token))),
           (''status'', JString ''connected''),
           (''role'', JString ''phone'')]))]
     @ (case pcConnections st token of
          Some p \<Rightarrow>
            if readyState (handlePhoneConnection w token st) p = OPEN
            then [Send p (JSON_stringify (JObject
                   [(''type'', JString ''relay_status''),
                    (''phone_connected'', JBool True)]))]
            else []
        | None \<Rightarrow> [])"
  by (simp add: handlePhoneConnection_def ws_send_def ws_close_def is_open_def Let_def
      split: option.splits)

lemma handlePCConnection_slots:
  "pcConnections (handlePCConnection w token st) = (pcConnections st)(token \<mapsto> w)"
  "phoneConnections (handlePCConnection w token st) = phoneConnections st"
  "handlers (handlePCConnection w token st) = handlers st"
  by (simp_all add: handlePCConnection_def ws_send_def ws_close_def Let_def split: option.splits)

lemma handlePhoneConnection_slots:
  "phoneConnections (handlePhoneConnection w token st) = (phoneConnections st)(token \<mapsto> w)"
  "pcConnections (handlePhoneConnection w token st) = pcConnections st"
  "handlers (handlePhoneConnection w token st) = handlers st"
  by (simp_all add: handlePhoneConnection_def ws_send_def ws_close_def Let_def
      split: option.splits)

lemma handlePCConnection_readyState:
  "readyState (handlePCConnection w token st) =
     (case pcConnections st token of
        Some oldPC \<Rightarrow>
          (readyState st)(oldPC := (if readyState st oldPC = CLOSED then CLOSED else CLOSING))
      | None \<Rightarrow> readyState st)"
  by (simp add: handlePCConnection_def ws_send_def ws_close_def Let_def split: option.splits)

lemma handlePhoneConnection_readyState:
  "readyState (handlePhoneConnection w token st) =
     (case phoneConnections st token of
        Some oldPhone \<Rightarrow>
          (readyState st)(oldPhone := (if readyState st oldPhone = CLOSED then CLOSED else CLOSING))
      | None \<Rightarrow> readyState st)"
  by (simp add: handlePhoneConnection_def ws_send_def ws_close_def Let_def
      split: option.splits)

text \<open>
  A registration into an occupied slot first calls \<open>close\<close> on the connection
  found there, then only sends; the slot then holds the new connection and the
  replaced one is not open.
\<close>

lemma supersede:
  shows "pcConnections st token = Some old \<Longrightarrow>
           (\<exists>code reason sends.
              trace (handlePCConnection w token st)
                = trace st @ Close old code reason # map (\<lambda>(x, d). Send x d) sends)
           \<and> pcConnections (handlePCConnection w token st) token = Some w
           \<and> readyState (handlePCConnection w token st) old \<noteq> OPEN"
    and "phoneConnections st token = Some old \<Longrightarrow>
           (\<exists>code reason sends.
              trace (handlePhoneConnection w token st)
                = trace st @ Close old code reason # map (\<lambda>(x, d). Send x d) sends)
           \<and> phoneConnections (handlePhoneConnection w token st) token = Some w
           \<and> readyState (handlePhoneConnection w token st) old \<noteq> OPEN"
proof -
  assume old: "pcConnections st token = Some old"
  let ?st = "handlePCConnection w token st"
  have "\<exists>sends. trace ?st
          = trace st @ Close old 1000 ''New PC connection'' # map (\<lambda>(x, d). Send x d) sends"
  proof (cases "phoneConnections st token")
    case None
    then have "trace ?st = trace st @ Close old 1000 ''New PC connection''
        # map (\<lambda>(x, d). Send x d)
            [(w, JSON_stringify (JObject
               [(''type'', JString ''relay_status''),
                (''status'', JString ''connected''),
                (''role'', JString ''pc'')]))]"
      using old by (simp add: handlePCConnection_trace)
    then show ?thesis by blast
  next
    case (Some p)
    show ?thesis
    proof (cases "readyState ?st p = OPEN")
      case True
      then have "trace ?st = trace st @ Close old 1000 ''New PC connection''
          # map (\<lambda>(x, d). Send x d)
              [(p, JSON_stringify (JObject
                 [(''type'', JString ''relay_status''),
                  (''pc_connected'', JBool True)])),
               (w, JSON_stringify (JObject
                 [(''type'', JString ''relay_status''),
                  (''status'', JString ''connected''),
                  (''role'', JString ''pc'')]))]"
        using old Some by (simp add: handlePCConnection_trace)
      then show ?thesis by blast
    next
      case False
      then have "trace ?st = trace st @ Close old 1000 ''New PC connection''
          # map (\<lambda>(x, d). Send x d)
              [(w, JSON_stringify (JObject
                 [(''type'', JString ''relay_status''),
                  (''status'', JString ''connected''),
                  (''role'', JString ''pc'')]))]"
        using old Some by (simp add: handlePCConnection_trace)
      then show ?thesis by blast
    qed
  qed
  then show "(\<exists>code reason sends.
              trace ?st = trace st @ Close old code reason # map (\<lambda>(x, d). Send x d) sends)
           \<and> pcConnections ?st token = Some w
           \<and> readyState ?st old \<noteq> OPEN"
    using old by (auto simp: handlePCConnection_slots handlePCConnection_readyState)
next
  assume old: "phoneConnections st token = Some old"
  let ?st = "handlePhoneConnection w token st"
  let ?status = "(w, JSON_stringify (JObject
          [(''type'', JString ''relay_status''),
           (''pc_connected'', JBool (is_open ?st (pcConnections st token))),
           (''status'', JString ''connected''),
           (''role'', JString ''phone'')]))"
  have "\<exists>sends. trace ?st
          = trace st @ Close old 1000 ''New phone connection'' # map (\<lambda>(x, d). Send x d) sends"
  proof (cases "pcConnections st token")
    case None
    then have "trace ?st = trace st @ Close old 1000 ''New phone connection''
        # map (\<lambda>(x, d). Send x d) [?status]"
      using old by (simp add: handlePhoneConnection_trace)
    then show ?thesis by blast
  next
    case (Some p)
    show ?thesis
    proof (cases "readyState ?st p = OPEN")
      case True
      then have "trace ?st = trace st @ Close old 1000 ''New phone connection''
          # map (\<lambda>(x, d). Send x d)
              [?status,
               (p, JSON_stringify (JObject
                 [(''type'', JString ''relay_status''),
                  (''phone_connected'', JBool True)]))]"
        using old Some by (simp add: handlePhoneConnection_trace)
      then show ?thesis by blast
    next
      case False
      then have "trace ?st = trace st @ Close old 1000 ''New phone connection''
          # map (\<lambda>(x, d). Send x d) [?status]"
        using old Some by (simp add: handlePhoneConnection_trace)
      then show ?thesis by blast
    qed
  qed
  then show "(\<exists>code reason sends.
              trace ?st = trace st @ Close old code reason # map (\<lambda>(x, d). Send x d) sends)
           \<and> phoneConnections ?st token = Some w
           \<and> readyState ?st old \<noteq> OPEN"
    using old by (auto simp: handlePhoneConnection_slots handlePhoneConnection_readyState)
qed

text \<open>
  C6. A slot is one entry of a map, so it holds at most one connection. A
  registration into an occupied slot first calls \<open>close\<close> on the connection
  found there, before any other call of the registration; afterwards the slot
  holds the new connection and the replaced one is no longer open. This holds
  for the desktop and for the controller slot.
\<close>

theorem occupied_slot_closed_before_store:
  "(pcConnections st token = Some oldPC \<longrightarrow>
      (\<exists>code reason sends.
         trace (handlePCConnection w token st)
           = trace st @ Close oldPC code reason # map (\<lambda>(x, d). Send x d) sends)
      \<and> pcConnections (handlePCConnection w token st) token = Some w
      \<and> readyState (handlePCConnection w token st) oldPC \<noteq> OPEN)
   \<and> (phoneConnections st token = Some oldPhone \<longrightarrow>
      (\<exists>code reason sends.
         trace (handlePhoneConnection w token st)
           = trace st @ Close oldPhone code reason # map (\<lambda>(x, d). Send x d) sends)
      \<and> phoneConnections (handlePhoneConnection w token st) token = Some w
      \<and> readyState (handlePhoneConnection w token st) oldPhone \<noteq> OPEN)"
  using supersede [of st token] by blast

theorem occupied_slot_closed_before_store_witness:
  "pcConnections (handlePCConnection 3 ''abc''
      (RelayServer\<lparr>pcConnections := [''abc'' \<mapsto> 1], phoneConnections := [''abc'' \<mapsto> 2],
                    readyState := (\<lambda>_. OPEN)\<rparr>)) ''abc'' = Some 3
   \<and> readyState (handlePCConnection 3 ''abc''
      (RelayServer\<lparr>pcConnections := [''abc'' \<mapsto> 1], phoneConnections := [''abc'' \<mapsto> 2],
                    readyState := (\<lambda>_. OPEN)\<rparr>)) 1 \<noteq> OPEN
   \<and> phoneConnections (handlePhoneConnection 3 ''abc''
      (RelayServer\<lparr>pcConnections := [''abc'' \<mapsto> 1], phoneConnections := [''abc'' \<mapsto> 2],
                    readyState := (\<lambda>_. OPEN)\<rparr>)) ''abc'' = Some 3
   \<and> readyState (handlePhoneConnection 3 ''abc''
      (RelayServer\<lparr>pcConnections := [''abc'' \<mapsto> 1], phoneConnections := [''abc'' \<mapsto> 2],
                    readyState := (\<lambda>_. OPEN)\<rparr>)) 2 \<noteq> OPEN"
  using occupied_slot_closed_before_store
    [of "RelayServer\<lparr>pcConnections := [''abc'' \<mapsto> 1], phoneConnections := [''abc'' \<mapsto> 2],
                      readyState := (\<lambda>_. OPEN)\<rparr>" "''abc''" 1 3 2]
  by simp

text \<open>
  C7. The connection displaced by a registration is closed with code 1000 and
  the reason \<open>New PC connection\<close> in the desktop slot, \<open>New phone connection\<close>
  in the controller slot; that is the only \<open>close\<close> of the registration.
\<close>

theorem displaced_close_code_and_reason:
  "(pcConnections st token = Some oldPC \<longrightarrow>
      [e \<leftarrow> drop (length (trace st)) (trace (handlePCConnection w token st)).
         \<exists>x code reason. e = Close x code reason]
        = [Close oldPC 1000 ''New PC connection''])
   \<and> (phoneConnections st token = Some oldPhone \<longrightarrow>
      [e \<leftarrow> drop (length (trace st)) (trace (handlePhoneConnection w token st)).
         \<exists>x code reason. e = Close x code reason]
        = [Close oldPhone 1000 ''New phone connection''])"
  by (auto simp: handlePCConnection_trace handlePhoneConnection_trace split: option.splits)

theorem displaced_close_code_and_reason_witness:
  "[e \<leftarrow> drop (length (trace
        (RelayServer\<lparr>pcConnections := [''abc'' \<mapsto> 1], phoneConnections := [''abc'' \<mapsto> 2],
                      readyState := (\<lambda>_. OPEN)\<rparr>)))
       (trace (handlePCConnection 3 ''abc''
        (RelayServer\<lparr>pcConnections := [''abc'' \<mapsto> 1], phoneConnections := [''abc'' \<mapsto> 2],
                      readyState := (\<lambda>_. OPEN)\<rparr>))).
      \<exists>x code reason. e = Close x code reason]
     = [Close 1 1000 ''New PC connection'']
   \<and> [e \<leftarrow> drop (length (trace
        (RelayServer\<lparr>pcConnections := [''abc'' \<mapsto> 1], phoneConnections := [''abc'' \<mapsto> 2],
                      readyState := (\<lambda>_. OPEN)\<rparr>)))
       (trace (handlePhoneConnection 3 ''abc''
        (RelayServer\<lparr>pcConnections := [''abc'' \<mapsto> 1], phoneConnections := [''abc'' \<mapsto> 2],
                      readyState := (\<lambda>_. OPEN)\<rparr>))).
      \<exists>x code reason. e = Close x code reason]
     = [Close 2 1000 ''New phone connection'']"
  using displaced_close_code_and_reason
    [of "RelayServer\<lparr>pcConnections := [''abc'' \<mapsto> 1], phoneConnections := [''abc'' \<mapsto> 2],
                      readyState := (\<lambda>_. OPEN)\<rparr>" "''abc''" 1 3 2]
  by simp

text \<open>
  Two desktops connect in turn for token \<open>abc\<close>: the first is closed with
  code 1000 and the reason \<open>New PC connection\<close>, and no call carries the reason
  \<open>superseded\<close>.
\<close>

theorem displaced_reason_is_not_superseded:
  "trace (run parse_example
      [Connection 1 (Some ''abc'') (Some ''pc''),
       Connection 2 (Some ''abc'') (Some ''pc'')] RelayServer)
   = [Send 1 (JSON_stringify (JObject
        [(''type'', JString ''relay_status''),
         (''status'', JString ''connected''),
         (''role'', JString ''pc'')])),
      Close 1 1000 ''New PC connection'',
      Send 2 (JSON_stringify (JObject
        [(''type'', JString ''relay_status''),
         (''status'', JString ''connected''),
         (''role'', JString ''pc'')]))]
   \<and> Close 1 1000 ''superseded'' \<notin> set (trace (run parse_example
      [Connection 1 (Some ''abc'') (Some ''pc''),
       Connection 2 (Some ''abc'') (Some ''pc'')] RelayServer))"
  by (simp add: RelayServer_def on_connection_def handlePCConnection_def
      ws_send_def ws_close_def)

text \<open>
  C3. A registration notifies the new connection and, when the peer slot holds
  an open socket, the peer. An arriving controller is told in the field
  \<open>pc_connected\<close> whether the desktop slot holds an open socket. An arriving
  desktop is sent a confirmation with the fields \<open>type\<close>, \<open>status\<close> and
  \<open>role\<close> only, the same whatever the state of the controller slot.
\<close>

theorem arrival_notifications:
  "trace (handlePhoneConnection w token st) =
     trace st
     @ (case phoneConnections st token of
          Some oldPhone \<Rightarrow> [Close oldPhone 1000 ''New phone connection'']
        | None \<Rightarrow> [])
     @ [Send w (JSON_stringify (JObject
          [(''type'', JString ''relay_status''),
           (''pc_connected'',
              JBool (is_open (handlePhoneConnection w token st)
                       (peer (handlePhoneConnection w token st) ''phone'' token))),
           (''status'', JString ''connected''),
           (''role'', JString ''phone'')]))]
     @ (case peer (handlePhoneConnection w token st) ''phone'' token of
          Some p \<Rightarrow>
            if readyState (handlePhoneConnection w token st) p = OPEN
            then [Send p (JSON_stringify (JObject
                   [(''type'', JString ''relay_status''),
                    (''phone_connected'', JBool True)]))]
            else []
        | None \<Rightarrow> [])
   \<and> trace (handlePCConnection w token st) =
     trace st
     @ (case pcConnections st token of
          Some oldPC \<Rightarrow> [Close oldPC 1000 ''New PC connection'']
        | None \<Rightarrow> [])
     @ (case peer (handlePCConnection w token st) ''pc'' token of
          Some p \<Rightarrow>
            if readyState (handlePCConnection w token st) p = OPEN
            then [Send p (JSON_stringify (JObject
                   [(''type'', JString ''relay_status''),
                    (''pc_connected'', JBool True)]))]
            else []
        | None \<Rightarrow> [])
     @ [Send w (JSON_stringify (JObject
          [(''type'', JString ''relay_status''),
           (''status'', JString ''connected''),
           (''role'', JString ''pc'')]))]"
  by (simp add: handlePhoneConnection_trace handlePCConnection_trace peer_def
      handlePhoneConnection_slots handlePCConnection_slots)

text \<open>
  A desktop connects for token \<open>abc\<close>, once with no controller and once after
  a controller that is open: the desktop is sent the same confirmation in both
  runs, with no field about the controller.
\<close>

theorem pc_arrival_not_told_phone_liveness:
  "trace (run parse_example [Connection 1 (Some ''abc'') (Some ''pc'')] RelayServer)
   = [Send 1 (JSON_stringify (JObject
        [(''type'', JString ''relay_status''),
         (''status'', JString ''connected''),
         (''role'', JString ''pc'')]))]
   \<and> trace (run parse_example
      [Connection 2 (Some ''abc'') (Some ''phone''),
       Connection 1 (Some ''abc'') (Some ''pc'')] RelayServer)
   = [Send 2 (JSON_stringify (JObject
        [(''type'', JString ''relay_status''),
         (''pc_connected'', JBool False),
         (''status'', JString ''connected''),
         (''role'', JString ''phone'')])),
      Send 2 (JSON_stringify (JObject
        [(''type'', JString ''relay_status''),
         (''pc_connected'', JBool True)])),
      Send 1 (JSON_stringify (JObject
        [(''type'', JString ''relay_status''),
         (''status'', JString ''connected''),
         (''role'', JString ''pc'')]))]
   \<and> is_open (run parse_example [Connection 2 (Some ''abc'') (Some ''phone'')] RelayServer)
        (phoneConnections
           (run parse_example [Connection 2 (Some ''abc'') (Some ''phone'')] RelayServer) ''abc'')
   \<and> \<not> is_open RelayServer (phoneConnections RelayServer ''abc'')"
  by (simp add: RelayServer_def on_connection_def handlePCConnection_def
      handlePhoneConnection_def ws_send_def ws_close_def is_open_def)

subsection \<open>Decoding\<close>

text \<open>Well-formed UTF-8 is decoded to itself.\<close>

lemma valid_utf8_decode:
  "valid_utf8 bs \<Longrightarrow> decode 0 0x80 0xBF [] bs = bs"
proof (induction bs rule: length_induct)
  case (1 bs)
  show ?case
  proof (cases bs)
    case Nil
    then show ?thesis by simp
  next
    case (Cons b r)
    note IH = "1.IH" [rule_format]
    consider (one) "in_range 0x00 0x7F b"
      | (two) "\<not> in_range 0x00 0x7F b" "in_range 0xC2 0xDF b"
      | (three) "\<not> in_range 0x00 0x7F b" "\<not> in_range 0xC2 0xDF b" "in_range 0xE0 0xEF b"
      | (four) "\<not> in_range 0x00 0x7F b" "\<not> in_range 0xC2 0xDF b" "\<not> in_range 0xE0 0xEF b"
          "in_range 0xF0 0xF4 b"
      | (none) "\<not> in_range 0x00 0x7F b" "\<not> in_range 0xC2 0xDF b" "\<not> in_range 0xE0 0xEF b"
          "\<not> in_range 0xF0 0xF4 b"
      by blast
    then show ?thesis
    proof cases
      case one
      then have "valid_utf8 r" using "1.prems" Cons by simp
      then have "decode 0 0x80 0xBF [] r = r" using IH [of r] Cons by simp
      then show ?thesis using one Cons by (simp add: in_range_def)
    next
      case two
      then obtain c1 r' where r: "r = c1 # r'" and c1: "in_range 0x80 0xBF c1"
        and v: "valid_utf8 r'"
        using "1.prems" Cons by (auto split: list.splits)
      have "decode 0 0x80 0xBF [] r' = r'" using IH [of r'] v Cons r by simp
      then show ?thesis using two c1 Cons r by (simp add: in_range_def)
    next
      case three
      then obtain c1 c2 r' where r: "r = c1 # c2 # r'"
        and c1: "in_range (if (of_char b :: nat) = 0xE0 then 0xA0 else 0x80)
                          (if (of_char b :: nat) = 0xED then 0x9F else 0xBF) c1"
        and c2: "in_range 0x80 0xBF c2"
        and v: "valid_utf8 r'"
        using "1.prems" Cons by (auto split: list.splits)
      have "decode 0 0x80 0xBF [] r' = r'" using IH [of r'] v Cons r by simp
      then show ?thesis using three c1 c2 Cons r by (simp add: in_range_def)
    next
      case four
      then obtain c1 c2 c3 r' where r: "r = c1 # c2 # c3 # r'"
        and c1: "in_range (if (of_char b :: nat) = 0xF0 then 0x90 else 0x80)
                          (if (of_char b :: nat) = 0xF4 then 0x8F else 0xBF) c1"
        and c2: "in_range 0x80 0xBF c2"
        and c3: "in_range 0x80 0xBF c3"
        and v: "valid_utf8 r'"
        using "1.prems" Cons by (auto split: list.splits)
      have "decode 0 0x80 0xBF [] r' = r'" using IH [of r'] v Cons r by simp
      then show ?thesis using four c1 c2 c3 Cons r by (simp add: in_range_def)
    next
      case none
      then show ?thesis using "1.prems" Cons by simp
    qed
  qed
qed

lemma valid_utf8_toString: "valid_utf8 buf \<Longrightarrow> toString buf = buf"
  by (simp add: toString_def valid_utf8_decode)

subsection \<open>Routing\<close>

lemma handleMessage_non_auth_phone:
  assumes "non_auth P m"
  shows "handleMessage P w token ''phone'' m st =
           (case pcConnections st token of
              Some p \<Rightarrow>
                if readyState st p = OPEN then ws_send p (Raw m) st
                else ws_send w (JSON_stringify (JObject
                       [(''type'', JString ''error''),
                        (''error'', JString ''PC not connected''),
                        (''pc_connected'', JBool False)])) st
            | None \<Rightarrow>
                ws_send w (JSON_stringify (JObject
                  [(''type'', JString ''error''),
                   (''error'', JString ''PC not connected''),
                   (''pc_connected'', JBool False)])) st)"
  using assms
  by (auto simp: handleMessage_def non_auth_def is_open_def split: option.splits)

lemma handleMessage_non_auth_pc:
  assumes "non_auth P m"
  shows "handleMessage P w token ''pc'' m st =
           (case phoneConnections st token of
              Some p \<Rightarrow> if readyState st p = OPEN then ws_send p (Raw m) st else st
            | None \<Rightarrow> st)"
  using assms
  by (auto simp: handleMessage_def non_auth_def is_open_def split: option.splits)

text \<open>
  C1. The desktop sends a result for token \<open>abc\<close> while no controller has ever
  connected: the envelope is dropped and the server makes no call at all, so
  the sender receives no error envelope. The controller, in the mirrored
  situation, is sent the error \<open>PC not connected\<close>.
\<close>

theorem pc_sender_gets_no_error:
  "non_auth parse_example ''{\"type\":\"result\",\"ok\":true}''
   \<and> phoneConnections (run parse_example [Connection 1 (Some ''abc'') (Some ''pc'')] RelayServer)
         ''abc'' = None
   \<and> trace (run parse_example
        [Connection 1 (Some ''abc'') (Some ''pc''),
         Message 1 ''{\"type\":\"result\",\"ok\":true}''] RelayServer)
     = trace (run parse_example [Connection 1 (Some ''abc'') (Some ''pc'')] RelayServer)
   \<and> trace (run parse_example
        [Connection 1 (Some ''abc'') (Some ''phone''),
         Message 1 ''{\"type\":\"click\",\"button\":\"left\"}''] RelayServer)
     = trace (run parse_example [Connection 1 (Some ''abc'') (Some ''phone'')] RelayServer)
       @ [Send 1 (JSON_stringify (JObject
            [(''type'', JString ''error''),
             (''error'', JString ''PC not connected''),
             (''pc_connected'', JBool False)]))]"
  by (simp add: non_auth_def parse_example_def RelayServer_def on_connection_def
      handlePCConnection_def handlePhoneConnection_def handleMessage_def
      ws_send_def ws_close_def is_open_def toString_def)

text \<open>One relayed message is one \<open>send\<close> of the decoded text on the peer socket.\<close>

lemma relay_decoded:
  assumes "c = ''pc'' \<or> c = ''phone''"
    and "handlers st w = Some (token, c)"
    and "peer st c token = Some p"
    and "readyState st p = OPEN"
    and "non_auth P (toString m)"
  shows "step P (Message w m) st = ws_send p (Raw (toString m)) st"
  using assms
  by (auto simp: peer_def handleMessage_non_auth_pc handleMessage_non_auth_phone)

lemma relay_one:
  assumes "c = ''pc'' \<or> c = ''phone''"
    and "handlers st w = Some (token, c)"
    and "peer st c token = Some p"
    and "readyState st p = OPEN"
    and "valid_utf8 m"
    and "non_auth P m"
  shows "step P (Message w m) st = ws_send p (Raw m) st"
  using relay_decoded [of c st w token p P m] assms
  by (simp add: valid_utf8_toString)

text \<open>
  C5. While the peer slot of the sender holds an open socket, the non-auth
  envelopes of one sender whose payloads are well-formed UTF-8, as the payload
  of every text frame is, are handed to that socket with the very bytes
  received, one \<open>send\<close> per envelope, in the order of arrival, and the server
  makes no other call.
\<close>

theorem live_peer_forwarded_in_order:
  assumes "c = ''pc'' \<or> c = ''phone''"
    and "handlers st w = Some (token, c)"
    and "peer st c token = Some p"
    and "readyState st p = OPEN"
    and "\<forall>m \<in> set ms. valid_utf8 m \<and> non_auth P m"
  shows "trace (run P (map (Message w) ms) st) = trace st @ map (\<lambda>m. Send p (Raw m)) ms"
  using assms
proof (induction ms arbitrary: st)
  case Nil
  then show ?case by simp
next
  case (Cons m ms)
  let ?st = "ws_send p (Raw m) st"
  have one: "step P (Message w m) st = ?st"
    using Cons.prems by (intro relay_one) auto
  have "trace (run P (map (Message w) ms) ?st) = trace ?st @ map (\<lambda>m. Send p (Raw m)) ms"
    using Cons.prems by (intro Cons.IH) (auto simp: ws_send_def peer_def)
  then show ?case
    using one by (simp add: ws_send_def)
qed

theorem live_peer_forwarded_in_order_witness:
  "trace (run parse_example
     (map (Message 2)
        [''{\"type\":\"click\",\"button\":\"left\"}'', ''{\"type\":\"result\",\"ok\":true}''])
     (run parse_example
        [Connection 1 (Some ''abc'') (Some ''pc''),
         Connection 2 (Some ''abc'') (Some ''phone'')] RelayServer))
   = trace (run parse_example
        [Connection 1 (Some ''abc'') (Some ''pc''),
         Connection 2 (Some ''abc'') (Some ''phone'')] RelayServer)
     @ [Send 1 (Raw ''{\"type\":\"click\",\"button\":\"left\"}''),
        Send 1 (Raw ''{\"type\":\"result\",\"ok\":true}'')]"
proof -
  let ?st = "run parse_example
        [Connection 1 (Some ''abc'') (Some ''pc''),
         Connection 2 (Some ''abc'') (Some ''phone'')] RelayServer"
  have h: "handlers ?st 2 = Some (''abc'', ''phone'')"
    by (simp add: RelayServer_def on_connection_def handlePCConnection_def
        handlePhoneConnection_def ws_send_def ws_close_def is_open_def)
  have p: "peer ?st ''phone'' ''abc'' = Some 1"
    by (simp add: peer_def RelayServer_def on_connection_def handlePCConnection_def
        handlePhoneConnection_def ws_send_def ws_close_def is_open_def)
  have r: "readyState ?st 1 = OPEN"
    by (simp add: RelayServer_def on_connection_def handlePCConnection_def
        handlePhoneConnection_def ws_send_def ws_close_def is_open_def)
  have n: "\<forall>m \<in> set [''{\"type\":\"click\",\"button\":\"left\"}'',
                       ''{\"type\":\"result\",\"ok\":true}''].
             valid_utf8 m \<and> non_auth parse_example m"
    by (simp add: non_auth_def parse_example_def in_range_def)
  show ?thesis
    using live_peer_forwarded_in_order [OF _ h p r n] by simp
qed

text \<open>
  The controller of token \<open>abc\<close> sends, while the desktop is open, a binary
  frame with the three bytes \<open>22 FF 22\<close>, which are not well-formed UTF-8. The
  listener decodes them to the JSON string whose only character is U+FFFD, a
  non-auth envelope, and the desktop is sent the five bytes \<open>22 EF BF BD 22\<close>.
\<close>

theorem ill_formed_payload_forwarded_decoded:
  "\<not> valid_utf8 [CHR 0x22, CHR 0xFF, CHR 0x22]
   \<and> non_auth parse_replacement (toString [CHR 0x22, CHR 0xFF, CHR 0x22])
   \<and> peer (run parse_replacement
        [Connection 1 (Some ''abc'') (Some ''pc''),
         Connection 2 (Some ''abc'') (Some ''phone'')] RelayServer) ''phone'' ''abc'' = Some 1
   \<and> readyState (run parse_replacement
        [Connection 1 (Some ''abc'') (Some ''pc''),
         Connection 2 (Some ''abc'') (Some ''phone'')] RelayServer) 1 = OPEN
   \<and> trace (run parse_replacement
        [Connection 1 (Some ''abc'') (Some ''pc''),
         Connection 2 (Some ''abc'') (Some ''phone''),
         Message 2 [CHR 0x22, CHR 0xFF, CHR 0x22]] RelayServer)
     = trace (run parse_replacement
        [Connection 1 (Some ''abc'') (Some ''pc''),
         Connection 2 (Some ''abc'') (Some ''phone'')] RelayServer)
       @ [Send 1 (Raw [CHR 0x22, CHR 0xEF, CHR 0xBF, CHR 0xBD, CHR 0x22])]
   \<and> Raw [CHR 0x22, CHR 0xEF, CHR 0xBF, CHR 0xBD, CHR 0x22]
       \<noteq> Raw [CHR 0x22, CHR 0xFF, CHR 0x22]"
  by (simp add: in_range_def non_auth_def parse_replacement_def toString_def replacement_def
      peer_def RelayServer_def on_connection_def handlePCConnection_def
      handlePhoneConnection_def handleMessage_def ws_send_def ws_close_def is_open_def)

text \<open>
  C4. An authentication message is handed to the peer (serialised again from the
  parsed value) exactly when the peer slot holds a socket whose \<open>readyState\<close>
  is \<open>OPEN\<close>; with an empty slot or a socket that is not open the message is
  dropped and the server makes no call.
\<close>

theorem auth_forwarded_iff_peer_open:
  assumes "P m = Some d" and "get_type d = Some (Some (JString ''auth''))"
  shows "handleMessage P w token c m st =
           (case peer st c token of
              Some t \<Rightarrow> if readyState st t = OPEN then ws_send t (JSON_stringify d) st else st
            | None \<Rightarrow> st)"
  using assms
  by (simp add: handleMessage_def handleAuthMessage_def peer_def)

theorem auth_forwarded_iff_peer_open_witness:
  "handleMessage parse_example 2 ''abc'' ''phone'' ''{\"type\":\"auth\",\"token\":\"abc\"}''
     (RelayServer\<lparr>pcConnections := [''abc'' \<mapsto> 1], readyState := (\<lambda>_. OPEN)\<rparr>)
   = ws_send 1 (JSON_stringify (JObject [(''type'', JString ''auth''), (''token'', JString ''abc'')]))
       (RelayServer\<lparr>pcConnections := [''abc'' \<mapsto> 1], readyState := (\<lambda>_. OPEN)\<rparr>)"
  using auth_forwarded_iff_peer_open
    [of parse_example "''{\"type\":\"auth\",\"token\":\"abc\"}''"
        "JObject [(''type'', JString ''auth''), (''token'', JString ''abc'')]"
        2 "''abc''" "''phone''"
        "RelayServer\<lparr>pcConnections := [''abc'' \<mapsto> 1], readyState := (\<lambda>_. OPEN)\<rparr>"]
  by (simp add: parse_example_def peer_def)

text \<open>
  The desktop of token \<open>abc\<close> is registered and has started its closing
  handshake, so its slot is occupied by a socket that is not open. The
  controller's authentication message is not forwarded.
\<close>

theorem auth_not_forwarded_to_closing_peer:
  "is_auth parse_example ''{\"type\":\"auth\",\"token\":\"abc\"}''
   \<and> pcConnections (run parse_example
        [Connection 1 (Some ''abc'') (Some ''pc''),
         Connection 2 (Some ''abc'') (Some ''phone''),
         Closing 1] RelayServer) ''abc'' = Some 1
   \<and> trace (run parse_example
        [Connection 1 (Some ''abc'') (Some ''pc''),
         Connection 2 (Some ''abc'') (Some ''phone''),
         Closing 1,
         Message 2 ''{\"type\":\"auth\",\"token\":\"abc\"}''] RelayServer)
     = trace (run parse_example
        [Connection 1 (Some ''abc'') (Some ''pc''),
         Connection 2 (Some ''abc'') (Some ''phone''),
         Closing 1] RelayServer)"
  by (simp add: is_auth_def parse_example_def RelayServer_def on_connection_def
      handlePCConnection_def handlePhoneConnection_def handleMessage_def
      handleAuthMessage_def ws_send_def ws_close_def is_open_def toString_def)

subsection \<open>Teardown\<close>

text \<open>
  C2. Two desktops connect in turn for token \<open>abc\<close>. The second supersedes the
  first: it is the registered one and it is open, the first is closing. When the
  \<open>close\<close> event of the first arrives, the handler deletes the entry of the
  token, which holds the second, still open, connection.
\<close>

theorem stale_close_clears_newer_connection:
  "pcConnections (run parse_example
      [Connection 1 (Some ''abc'') (Some ''pc''),
       Connection 2 (Some ''abc'') (Some ''pc'')] RelayServer) ''abc'' = Some 2
   \<and> readyState (run parse_example
      [Connection 1 (Some ''abc'') (Some ''pc''),
       Connection 2 (Some ''abc'') (Some ''pc'')] RelayServer) 1 = CLOSING
   \<and> pcConnections (run parse_example
      [Connection 1 (Some ''abc'') (Some ''pc''),
       Connection 2 (Some ''abc'') (Some ''pc''),
       CloseEvent 1] RelayServer) ''abc'' = None
   \<and> readyState (run parse_example
      [Connection 1 (Some ''abc'') (Some ''pc''),
       Connection 2 (Some ''abc'') (Some ''pc''),
       CloseEvent 1] RelayServer) 2 = OPEN"
  by (simp add: RelayServer_def on_connection_def handlePCConnection_def
      handleDisconnection_def ws_send_def ws_close_def)

text \<open>
  C9. The server starts with no entry and a registration adds the entry of its
  token. \<open>handleDisconnection\<close> deletes the entry of its token from the map
  of its client type (the desktop map for \<open>pc\<close>, the controller map
  otherwise) and leaves the other map as it is.
\<close>

theorem disconnection_deletes_entry:
  "tokens RelayServer = {}
   \<and> tokens (handlePCConnection w token st) = insert token (tokens st)
   \<and> tokens (handlePhoneConnection w token st) = insert token (tokens st)
   \<and> (c = ''pc'' \<longrightarrow>
        pcConnections (handleDisconnection token c st) = (pcConnections st)(token := None)
      \<and> phoneConnections (handleDisconnection token c st) = phoneConnections st)
   \<and> (c \<noteq> ''pc'' \<longrightarrow>
        phoneConnections (handleDisconnection token c st) = (phoneConnections st)(token := None)
      \<and> pcConnections (handleDisconnection token c st) = pcConnections st)"
  by (auto simp: tokens_def RelayServer_def handleDisconnection_def ws_send_def Let_def
      handlePCConnection_slots handlePhoneConnection_slots split: option.splits)

theorem disconnection_deletes_entry_witness:
  "pcConnections (handleDisconnection ''abc'' ''pc''
      (RelayServer\<lparr>pcConnections := [''abc'' \<mapsto> 1], phoneConnections := [''abc'' \<mapsto> 2]\<rparr>))
     = Map.empty
   \<and> phoneConnections (handleDisconnection ''abc'' ''phone''
      (RelayServer\<lparr>pcConnections := [''abc'' \<mapsto> 1], phoneConnections := [''abc'' \<mapsto> 2]\<rparr>))
     = Map.empty"
  using disconnection_deletes_entry [of 3 "''abc''"
      "RelayServer\<lparr>pcConnections := [''abc'' \<mapsto> 1], phoneConnections := [''abc'' \<mapsto> 2]\<rparr>"
      "''pc''"]
    disconnection_deletes_entry [of 3 "''abc''"
      "RelayServer\<lparr>pcConnections := [''abc'' \<mapsto> 1], phoneConnections := [''abc'' \<mapsto> 2]\<rparr>"
      "''phone''"]
  by simp

text \<open>
  A desktop connects with token \<open>abc\<close> and disconnects: the token is a key
  after the connection and no key is left after the disconnection.
\<close>

theorem entry_removed_on_disconnect:
  "''abc'' \<in> tokens (run parse_example
      [Connection 1 (Some ''abc'') (Some ''pc'')] RelayServer)
   \<and> tokens (run parse_example
      [Connection 1 (Some ''abc'') (Some ''pc''), CloseEvent 1] RelayServer) = {}"
  by (simp add: tokens_def RelayServer_def on_connection_def handlePCConnection_def
      handleDisconnection_def ws_send_def ws_close_def)

subsection \<open>Isolation of tokens\<close>

lemma handleMessage_frame:
  "pcConnections (handleMessage P w t c m st) = pcConnections st"
  "phoneConnections (handleMessage P w t c m st) = phoneConnections st"
  "handlers (handleMessage P w t c m st) = handlers st"
  "readyState (handleMessage P w t c m st) = readyState st"
  by (simp_all add: handleMessage_def handleAuthMessage_def invalid_message_def ws_send_def
      Let_def split: option.splits)

lemma handleMessage_targets:
  "\<exists>new. trace (handleMessage P w t c m st) = trace st @ new
         \<and> target ` set new \<subseteq> insert w (registered st t)"
  by (auto simp: handleMessage_def handleAuthMessage_def invalid_message_def ws_send_def
      is_open_def registered_def Let_def split: option.splits)

lemma handleDisconnection_frame:
  "handlers (handleDisconnection t c st) = handlers st"
  "readyState (handleDisconnection t c st) = readyState st"
  "t' \<noteq> t \<Longrightarrow> pcConnections (handleDisconnection t c st) t' = pcConnections st t'"
  "t' \<noteq> t \<Longrightarrow> phoneConnections (handleDisconnection t c st) t' = phoneConnections st t'"
  by (simp_all add: handleDisconnection_def ws_send_def Let_def split: option.splits)

lemma handleDisconnection_slots:
  "pcConnections (handleDisconnection t c st) =
     (if c = ''pc'' then (pcConnections st)(t := None) else pcConnections st)"
  "phoneConnections (handleDisconnection t c st) =
     (if c = ''pc'' then phoneConnections st else (phoneConnections st)(t := None))"
  by (simp_all add: handleDisconnection_def ws_send_def Let_def split: option.splits)

lemma handleDisconnection_targets:
  "\<exists>new. trace (handleDisconnection t c st) = trace st @ new
         \<and> target ` set new \<subseteq> registered st t"
  by (auto simp: handleDisconnection_def ws_send_def registered_def Let_def split: option.splits)

lemma on_connection_targets:
  "\<exists>new. trace (on_connection w token c st) = trace st @ new
         \<and> target ` set new \<subseteq> insert w (case token of None \<Rightarrow> {} | Some t \<Rightarrow> registered st t)"
  by (auto simp: on_connection_def ws_close_def handlePCConnection_trace handlePhoneConnection_trace
      registered_def Let_def split: option.splits)

lemma on_connection_other:
  "token \<noteq> Some t' \<Longrightarrow> pcConnections (on_connection w token c st) t' = pcConnections st t'"
  "token \<noteq> Some t' \<Longrightarrow> phoneConnections (on_connection w token c st) t' = phoneConnections st t'"
  by (auto simp: on_connection_def ws_close_def handlePCConnection_slots handlePhoneConnection_slots
      Let_def split: option.splits)

lemma consistent_init: "consistent RelayServer"
  by (simp add: consistent_def RelayServer_def)

lemma on_connection_readyState:
  "readyState st w' \<noteq> CONNECTING \<Longrightarrow> readyState (on_connection w token c st) w' \<noteq> CONNECTING"
  by (auto simp: on_connection_def ws_close_def handlePCConnection_readyState
      handlePhoneConnection_readyState Let_def split: option.splits)

lemma on_connection_handlers:
  "handlers (on_connection w token c st) w' = Some h \<Longrightarrow> w' = w \<or> handlers st w' = Some h"
  by (auto simp: on_connection_def ws_close_def handlePCConnection_slots
      handlePhoneConnection_slots Let_def split: option.splits if_splits)

lemma on_connection_pc:
  "pcConnections (on_connection w token c st) t = Some w' \<Longrightarrow>
     (pcConnections st t = Some w' \<and> (w' \<noteq> w \<longrightarrow> handlers (on_connection w token c st) w' = handlers st w'))
     \<or> (w' = w \<and> (\<exists>c'. handlers (on_connection w token c st) w = Some (t, c')))"
  by (auto simp: on_connection_def ws_close_def handlePCConnection_slots
      handlePhoneConnection_slots Let_def split: option.splits if_splits)

lemma on_connection_phone:
  "phoneConnections (on_connection w token c st) t = Some w' \<Longrightarrow>
     (phoneConnections st t = Some w' \<and> (w' \<noteq> w \<longrightarrow> handlers (on_connection w token c st) w' = handlers st w'))
     \<or> (w' = w \<and> (\<exists>c'. handlers (on_connection w token c st) w = Some (t, c')))"
  by (auto simp: on_connection_def ws_close_def handlePCConnection_slots
      handlePhoneConnection_slots Let_def split: option.splits if_splits)

lemma consistent_unregistered:
  assumes "consistent st" and "readyState st w = CONNECTING"
  shows "pcConnections st t \<noteq> Some w" and "phoneConnections st t \<noteq> Some w"
proof -
  show "pcConnections st t \<noteq> Some w"
  proof
    assume "pcConnections st t = Some w"
    then have "handlers st w \<noteq> None" using assms(1) unfolding consistent_def by fastforce
    then show False using assms unfolding consistent_def by blast
  qed
  show "phoneConnections st t \<noteq> Some w"
  proof
    assume "phoneConnections st t = Some w"
    then have "handlers st w \<noteq> None" using assms(1) unfolding consistent_def by fastforce
    then show False using assms unfolding consistent_def by blast
  qed
qed

lemma consistent_connection:
  assumes "consistent st" and "readyState st w = CONNECTING"
  shows "consistent (on_connection w token c (st\<lparr>readyState := (readyState st)(w := OPEN)\<rparr>))"
proof -
  let ?pre = "st\<lparr>readyState := (readyState st)(w := OPEN)\<rparr>"
  let ?post = "on_connection w token c ?pre"
  have fresh: "pcConnections st t \<noteq> Some w" "phoneConnections st t \<noteq> Some w" for t
    using consistent_unregistered [OF assms] by auto
  have old: "\<exists>c'. handlers st w' = Some (t, c')"
    if "pcConnections st t = Some w' \<or> phoneConnections st t = Some w'" for t w'
    using that assms(1) unfolding consistent_def by blast
  have pc: "\<exists>c'. handlers ?post w' = Some (t, c')" if "pcConnections ?post t = Some w'" for t w'
  proof -
    from on_connection_pc [OF that]
    consider "pcConnections st t = Some w'" "w' \<noteq> w \<longrightarrow> handlers ?post w' = handlers st w'"
      | "w' = w" "\<exists>c'. handlers ?post w = Some (t, c')"
      by auto
    then show ?thesis
    proof cases
      case 1
      then have "w' \<noteq> w" using fresh by auto
      then show ?thesis using 1 old by auto
    next
      case 2
      then show ?thesis by simp
    qed
  qed
  have ph: "\<exists>c'. handlers ?post w' = Some (t, c')" if "phoneConnections ?post t = Some w'" for t w'
  proof -
    from on_connection_phone [OF that]
    consider "phoneConnections st t = Some w'" "w' \<noteq> w \<longrightarrow> handlers ?post w' = handlers st w'"
      | "w' = w" "\<exists>c'. handlers ?post w = Some (t, c')"
      by auto
    then show ?thesis
    proof cases
      case 1
      then have "w' \<noteq> w" using fresh by auto
      then show ?thesis using 1 old by auto
    next
      case 2
      then show ?thesis by simp
    qed
  qed
  have rs: "readyState ?post w' \<noteq> CONNECTING" if "handlers ?post w' \<noteq> None" for w'
  proof -
    from that obtain h where h: "handlers ?post w' = Some h" by auto
    have "w' = w \<or> handlers ?pre w' = Some h"
      by (rule on_connection_handlers [OF h])
    then have "readyState ?pre w' \<noteq> CONNECTING"
      using assms(1) by (auto simp: consistent_def)
    then show ?thesis by (rule on_connection_readyState)
  qed
  show ?thesis
    unfolding consistent_def using pc ph rs by blast
qed

lemma consistent_handleDisconnection:
  assumes "consistent st"
  shows "consistent (handleDisconnection t c st)"
proof -
  let ?post = "handleDisconnection t c st"
  have "pcConnections ?post t' = Some w \<Longrightarrow> pcConnections st t' = Some w" for t' w
    by (auto simp: handleDisconnection_slots split: if_splits)
  moreover have "phoneConnections ?post t' = Some w \<Longrightarrow> phoneConnections st t' = Some w" for t' w
    by (auto simp: handleDisconnection_slots split: if_splits)
  ultimately show ?thesis
    using assms unfolding consistent_def handleDisconnection_frame by blast
qed

lemma consistent_step:
  assumes "consistent st"
  shows "consistent (step P e st)"
proof (cases e)
  case (Connection w token c)
  then show ?thesis using assms consistent_connection by simp
next
  case (Message w m)
  have "consistent (handleMessage P w t c (toString m) st)" for t c
    using assms unfolding consistent_def handleMessage_frame .
  then show ?thesis using Message assms
    by (simp split: option.splits)
next
  case (Closing w)
  have "consistent (st\<lparr>readyState := (readyState st)(w := CLOSING)\<rparr>)"
    using assms unfolding consistent_def by simp
  then show ?thesis using Closing assms by simp
next
  case (CloseEvent w)
  have "consistent (st\<lparr>readyState := (readyState st)(w := CLOSED)\<rparr>)"
    using assms unfolding consistent_def by simp
  then show ?thesis using CloseEvent
    by (simp add: Let_def consistent_handleDisconnection split: option.splits)
next
  case (ErrorEvent w)
  define r where "r = (if readyState st w = CLOSED then CLOSED else CLOSING)"
  have stp: "step P e st =
      (case handlers st w of
         Some (t, c) \<Rightarrow> handleDisconnection t c (st\<lparr>readyState := (readyState st)(w := r)\<rparr>)
       | None \<Rightarrow> st\<lparr>readyState := (readyState st)(w := r)\<rparr>)"
    using ErrorEvent unfolding r_def by (simp add: Let_def)
  have "r \<noteq> CONNECTING" by (simp add: r_def)
  then have "consistent (st\<lparr>readyState := (readyState st)(w := r)\<rparr>)"
    using assms unfolding consistent_def by simp
  then show ?thesis unfolding stp
    by (simp add: consistent_handleDisconnection split: option.splits)
qed

lemma consistent_run:
  "consistent st \<Longrightarrow> consistent (run P es st)"
  by (induction es arbitrary: st) (simp_all add: consistent_step)

lemma consistent_registered_token:
  assumes "consistent st" and "w \<in> registered st b"
  shows "map_option fst (handlers st w) = Some b"
proof -
  from assms(2) have "pcConnections st b = Some w \<or> phoneConnections st b = Some w"
    by (auto simp: registered_def)
  then have "\<exists>c. handlers st w = Some (b, c)"
    using assms(1) unfolding consistent_def by blast
  then show ?thesis by auto
qed

lemma consistent_registered_disjoint:
  assumes "consistent st" and "a \<noteq> b"
  shows "registered st a \<inter> registered st b = {}"
proof -
  have False if "w \<in> registered st a" "w \<in> registered st b" for w
    using consistent_registered_token [OF assms(1) that(1)]
      consistent_registered_token [OF assms(1) that(2)] assms(2) by simp
  then show ?thesis by blast
qed

lemma consistent_registered_not_connecting:
  assumes "consistent st" and "w \<in> registered st b"
  shows "readyState st w \<noteq> CONNECTING"
proof -
  have "handlers st w \<noteq> None"
    using consistent_registered_token [OF assms] by auto
  then show ?thesis using assms(1) unfolding consistent_def by blast
qed

lemma step_other_token:
  assumes "consistent st" and "event_token st e \<noteq> Some b"
  shows "pcConnections (step P e st) b = pcConnections st b
       \<and> phoneConnections (step P e st) b = phoneConnections st b
       \<and> (\<exists>new. trace (step P e st) = trace st @ new
              \<and> target ` set new \<inter> registered st b = {})"
proof (cases e)
  case (Connection w token c)
  show ?thesis
  proof (cases "readyState st w = CONNECTING")
    case False
    then show ?thesis using Connection by simp
  next
    case True
    let ?pre = "st\<lparr>readyState := (readyState st)(w := OPEN)\<rparr>"
    have tok: "token \<noteq> Some b" using assms(2) Connection by simp
    have reg: "registered ?pre t = registered st t" for t
      by (simp add: registered_def)
    obtain new where new: "trace (on_connection w token c ?pre) = trace st @ new"
      "target ` set new \<subseteq> insert w (case token of None \<Rightarrow> {} | Some t \<Rightarrow> registered st t)"
      using on_connection_targets [of w token c ?pre] unfolding reg by auto
    have "w \<notin> registered st b"
      using consistent_registered_not_connecting [OF assms(1)] True by blast
    moreover have "(case token of None \<Rightarrow> {} | Some t \<Rightarrow> registered st t) \<inter> registered st b = {}"
      using tok consistent_registered_disjoint [OF assms(1)] by (cases token) auto
    ultimately have "target ` set new \<inter> registered st b = {}"
      using new(2) by blast
    then show ?thesis
      using Connection True tok new(1) by (simp add: on_connection_other)
  qed
next
  case (Message w m)
  show ?thesis
  proof (cases "handlers st w")
    case None
    then show ?thesis using Message by simp
  next
    case (Some h)
    obtain t c where h: "h = (t, c)" by (cases h)
    have tb: "t \<noteq> b" using assms(2) Message Some h by simp
    obtain new where new: "trace (handleMessage P w t c (toString m) st) = trace st @ new"
      "target ` set new \<subseteq> insert w (registered st t)"
      using handleMessage_targets by blast
    have "w \<notin> registered st b"
      using consistent_registered_token [OF assms(1), of w b] Some h tb by auto
    moreover have "registered st t \<inter> registered st b = {}"
      using consistent_registered_disjoint [OF assms(1) tb] .
    ultimately have "target ` set new \<inter> registered st b = {}"
      using new(2) by blast
    then show ?thesis
      using Message Some h new(1) by (simp add: handleMessage_frame)
  qed
next
  case (Closing w)
  then show ?thesis by simp
next
  case (CloseEvent w)
  let ?pre = "st\<lparr>readyState := (readyState st)(w := CLOSED)\<rparr>"
  show ?thesis
  proof (cases "handlers st w")
    case None
    then show ?thesis using CloseEvent by (simp add: Let_def)
  next
    case (Some h)
    obtain t c where h: "h = (t, c)" by (cases h)
    have tb: "t \<noteq> b" using assms(2) CloseEvent Some h by simp
    have reg: "registered ?pre t = registered st t"
      by (simp add: registered_def)
    obtain new where new: "trace (handleDisconnection t c ?pre) = trace st @ new"
      "target ` set new \<subseteq> registered st t"
      using handleDisconnection_targets [of t c ?pre] unfolding reg by auto
    have "registered st t \<inter> registered st b = {}"
      using consistent_registered_disjoint [OF assms(1) tb] .
    then have "target ` set new \<inter> registered st b = {}"
      using new(2) by blast
    moreover have "pcConnections (handleDisconnection t c ?pre) b = pcConnections st b"
      "phoneConnections (handleDisconnection t c ?pre) b = phoneConnections st b"
      using tb by (simp_all add: handleDisconnection_frame)
    ultimately show ?thesis
      using CloseEvent Some h new(1) by (simp add: Let_def)
  qed
next
  case (ErrorEvent w)
  define r where "r = (if readyState st w = CLOSED then CLOSED else CLOSING)"
  let ?pre = "st\<lparr>readyState := (readyState st)(w := r)\<rparr>"
  have stp: "step P e st =
      (case handlers st w of
         Some (t, c) \<Rightarrow> handleDisconnection t c ?pre
       | None \<Rightarrow> ?pre)"
    using ErrorEvent unfolding r_def by (simp add: Let_def)
  show ?thesis
  proof (cases "handlers st w")
    case None
    then show ?thesis unfolding stp by simp
  next
    case (Some h)
    obtain t c where h: "h = (t, c)" by (cases h)
    have tb: "t \<noteq> b" using assms(2) ErrorEvent Some h by simp
    have reg: "registered ?pre t = registered st t"
      by (simp add: registered_def)
    obtain new where new: "trace (handleDisconnection t c ?pre) = trace st @ new"
      "target ` set new \<subseteq> registered st t"
      using handleDisconnection_targets [of t c ?pre] unfolding reg by auto
    have "registered st t \<inter> registered st b = {}"
      using consistent_registered_disjoint [OF assms(1) tb] .
    then have "target ` set new \<inter> registered st b = {}"
      using new(2) by blast
    moreover have "pcConnections (handleDisconnection t c ?pre) b = pcConnections st b"
      "phoneConnections (handleDisconnection t c ?pre) b = phoneConnections st b"
      using tb by (simp_all add: handleDisconnection_frame)
    ultimately show ?thesis
      unfolding stp using Some h new(1) by simp
  qed
qed

text \<open>
  C10. In every state the server reaches, an event that belongs to token \<open>a\<close>
  leaves both slots of any other token \<open>b\<close> as they are, and none of the calls
  it causes, \<open>send\<close> or \<open>close\<close>, is made on a socket registered under \<open>b\<close>.
\<close>

theorem other_token_undisturbed:
  assumes "event_token (run P es RelayServer) e = Some a" and "a \<noteq> b"
  shows "pcConnections (step P e (run P es RelayServer)) b
           = pcConnections (run P es RelayServer) b
       \<and> phoneConnections (step P e (run P es RelayServer)) b
           = phoneConnections (run P es RelayServer) b
       \<and> target ` set (drop (length (trace (run P es RelayServer)))
                         (trace (step P e (run P es RelayServer))))
           \<inter> registered (run P es RelayServer) b = {}"
proof -
  let ?pre = "run P es RelayServer"
  have "consistent ?pre"
    by (rule consistent_run [OF consistent_init])
  moreover have "event_token ?pre e \<noteq> Some b"
    using assms by simp
  ultimately obtain new where
    slots: "pcConnections (step P e ?pre) b = pcConnections ?pre b"
      "phoneConnections (step P e ?pre) b = phoneConnections ?pre b"
    and new: "trace (step P e ?pre) = trace ?pre @ new"
      "target ` set new \<inter> registered ?pre b = {}"
    using step_other_token [of ?pre e b P] by blast
  show ?thesis
    using slots new by simp
qed

theorem other_token_undisturbed_witness:
  "pcConnections (step parse_example (Message 1 ''{\"type\":\"click\",\"button\":\"left\"}'')
      (run parse_example
         [Connection 1 (Some ''abc'') (Some ''phone''),
          Connection 2 (Some ''xyz'') (Some ''pc'')] RelayServer)) ''xyz'' = Some 2
   \<and> target ` set (drop (length (trace (run parse_example
         [Connection 1 (Some ''abc'') (Some ''phone''),
          Connection 2 (Some ''xyz'') (Some ''pc'')] RelayServer)))
       (trace (step parse_example (Message 1 ''{\"type\":\"click\",\"button\":\"left\"}'')
         (run parse_example
           [Connection 1 (Some ''abc'') (Some ''phone''),
            Connection 2 (Some ''xyz'') (Some ''pc'')] RelayServer))))
     \<inter> {2} = {}"
proof -
  let ?es = "[Connection 1 (Some ''abc'') (Some ''phone''),
              Connection 2 (Some ''xyz'') (Some ''pc'')]"
  let ?e = "Message 1 ''{\"type\":\"click\",\"button\":\"left\"}''"
  have tok: "event_token (run parse_example ?es RelayServer) ?e = Some ''abc''"
    by (simp add: RelayServer_def on_connection_def handlePCConnection_def
        handlePhoneConnection_def ws_send_def ws_close_def is_open_def)
  have ne: "''abc'' \<noteq> ''xyz''" by simp
  have pc: "pcConnections (run parse_example ?es RelayServer) ''xyz'' = Some 2"
    by (simp add: RelayServer_def on_connection_def handlePCConnection_def
        handlePhoneConnection_def ws_send_def ws_close_def is_open_def)
  have reg: "registered (run parse_example ?es RelayServer) ''xyz'' = {2}"
    by (simp add: registered_def RelayServer_def on_connection_def handlePCConnection_def
        handlePhoneConnection_def ws_send_def ws_close_def is_open_def)
  show ?thesis
    using other_token_undisturbed [OF tok ne] pc reg by simp
qed

end
